theory Spec2Isabelle
  imports Complex_Main "HOL-Library.AList"
begin

section \<open>Report parsers of the Gaussian tool server (gaussian_v1.py)\<close>

text \<open>
  The four text parsers of \<^verbatim>\<open>gaussian_v1.py\<close> as HOL functions:
  \<^verbatim>\<open>parse_xyz_content\<close>, \<^verbatim>\<open>extract_optimized_structure\<close>, \<^verbatim>\<open>extract_fchk_data\<close> and
  \<^verbatim>\<open>parse_multiwfn_surface_analysis\<close>.

  Conventions of the embedding.
  \<^item> A Python \<^verbatim>\<open>str\<close> is a \<^typ>\<open>string\<close>; a \<^typ>\<open>char\<close> stands for one code point below 256.
  \<^item> The built-in conversions \<^verbatim>\<open>int(s)\<close> and \<^verbatim>\<open>float(s)\<close> are parameters \<open>pint\<close> and
    \<open>pfloat\<close> of every function that calls them; \<open>None\<close> is the conversion raising
    \<^verbatim>\<open>ValueError\<close>. The type \<open>'f\<close> of float values is left open.
  \<^item> An exception is a value \<open>Inl e\<close> of \<open>error + 'a\<close>.
  \<^item> \<^verbatim>\<open>print\<close> calls have no effect on the value returned and are left out.
\<close>

subsection \<open>Python strings\<close>

text \<open>The code points below 256 for which \<^verbatim>\<open>str.isspace\<close> holds; \<^verbatim>\<open>str.split()\<close>,
  \<^verbatim>\<open>str.strip()\<close> and the pattern \<^verbatim>\<open>\s\<close> all use this set.\<close>

definition whitespace_chars :: "char list" where
  "whitespace_chars =
     [CHR 0x09, CHR 0x0A, CHR 0x0B, CHR 0x0C, CHR 0x0D, CHR 0x1C, CHR 0x1D, CHR 0x1E,
      CHR 0x1F, CHR 0x20, CHR 0x85, CHR 0xA0]"

definition is_space :: "char \<Rightarrow> bool" where
  "is_space c = (c \<in> set whitespace_chars)"

text \<open>\<^verbatim>\<open>s.split()\<close>: the maximal runs of non-whitespace characters, in order.
  \<open>split_acc cur s\<close> carries the field being read.\<close>

fun split_acc :: "string \<Rightarrow> string \<Rightarrow> string list" where
  "split_acc cur [] = (if cur = [] then [] else [cur])"
| "split_acc cur (c # cs) =
     (if is_space c then (if cur = [] then split_acc [] cs else cur # split_acc [] cs)
      else split_acc (cur @ [c]) cs)"

definition split_ws :: "string \<Rightarrow> string list" where
  "split_ws s = split_acc [] s"

text \<open>\<^verbatim>\<open>s.strip()\<close>.\<close>

definition strip :: "string \<Rightarrow> string" where
  "strip s = rev (dropWhile is_space (rev (dropWhile is_space s)))"

text \<open>\<^verbatim>\<open>s.split(d)\<close> for a one-character separator: always at least one piece.\<close>

fun split_on :: "char \<Rightarrow> string \<Rightarrow> string list" where
  "split_on d [] = [[]]"
| "split_on d (c # cs) =
     (if c = d then [] # split_on d cs
      else (case split_on d cs of [] \<Rightarrow> [[c]] | r # rs \<Rightarrow> (c # r) # rs))"

definition newline :: char where
  "newline = CHR 0x0A"

text \<open>\<^verbatim>\<open>s.isdigit()\<close>: non-empty and every character a digit. Below 256 the digits are
  \<^verbatim>\<open>0\<close>..\<^verbatim>\<open>9\<close> and the superscripts two, three and one.\<close>

definition is_ascii_digit :: "char \<Rightarrow> bool" where
  "is_ascii_digit c = (c \<in> set ''0123456789'')"

definition is_digit_char :: "char \<Rightarrow> bool" where
  "is_digit_char c = (is_ascii_digit c \<or> c \<in> set [CHR 0xB2, CHR 0xB3, CHR 0xB9])"

definition isdigit :: "string \<Rightarrow> bool" where
  "isdigit s = (s \<noteq> [] \<and> list_all is_digit_char s)"

text \<open>\<^verbatim>\<open>sub in s\<close>.\<close>

fun starts_with :: "string \<Rightarrow> string \<Rightarrow> bool" where
  "starts_with [] s = True"
| "starts_with (p # ps) [] = False"
| "starts_with (p # ps) (c # cs) = (p = c \<and> starts_with ps cs)"

fun contains :: "string \<Rightarrow> string \<Rightarrow> bool" where
  "contains sub [] = (sub = [])"
| "contains sub (c # cs) = (starts_with sub (c # cs) \<or> contains sub cs)"

subsection \<open>Exceptions\<close>

datatype error = IndexError | ValueError | KeyError | TypeError | OSError

definition bindE :: "error + 'a \<Rightarrow> ('a \<Rightarrow> error + 'b) \<Rightarrow> error + 'b" where
  "bindE m f = (case m of Inl e \<Rightarrow> Inl e | Inr x \<Rightarrow> f x)"

text \<open>\<^verbatim>\<open>xs[i]\<close>: a negative index counts from the end; out of range raises.\<close>

definition py_index :: "'a list \<Rightarrow> int \<Rightarrow> error + 'a" where
  "py_index xs i =
     (if 0 \<le> i \<and> i < int (length xs) then Inr (xs ! nat i)
      else if i < 0 \<and> - int (length xs) \<le> i then Inr (xs ! nat (int (length xs) + i))
      else Inl IndexError)"

definition to_int :: "(string \<Rightarrow> int option) \<Rightarrow> string \<Rightarrow> error + int" where
  "to_int pint s = (case pint s of None \<Rightarrow> Inl ValueError | Some n \<Rightarrow> Inr n)"

definition to_float :: "(string \<Rightarrow> 'f option) \<Rightarrow> string \<Rightarrow> error + 'f" where
  "to_float pfloat s = (case pfloat s of None \<Rightarrow> Inl ValueError | Some v \<Rightarrow> Inr v)"

subsection \<open>Decimal literals\<close>

text \<open>
  Instances of the two conversion parameters, for running the model on a concrete text.
  \<open>dec_int\<close> reads an optional sign and ASCII digits, \<open>dec_float\<close> an optional sign, ASCII
  digits and at most one point, with a digit on one side of it; on these strings
  \<^verbatim>\<open>int\<close> and \<^verbatim>\<open>float\<close> succeed with the same number (for \<^verbatim>\<open>float\<close> up to rounding to
  binary64: the value here is the exact rational). Every other string is rejected here;
  Python accepts some of them (exponents, underscores, \<^verbatim>\<open>inf\<close>, \<^verbatim>\<open>nan\<close>), and no concrete
  text below contains one.
\<close>

definition digit_of :: "char \<Rightarrow> nat" where
  "digit_of c = (case map_of (zip ''0123456789'' [0 ..< 10]) c of Some d \<Rightarrow> d | None \<Rightarrow> 0)"

fun digits_val :: "nat \<Rightarrow> string \<Rightarrow> nat" where
  "digits_val acc [] = acc"
| "digits_val acc (c # cs) = digits_val (10 * acc + digit_of c) cs"

definition unsigned_int :: "string \<Rightarrow> nat option" where
  "unsigned_int s =
     (if s \<noteq> [] \<and> list_all is_ascii_digit s then Some (digits_val 0 s) else None)"

definition unsigned_float :: "string \<Rightarrow> rat option" where
  "unsigned_float s =
     (let ip = takeWhile is_ascii_digit s; rest = dropWhile is_ascii_digit s
      in case rest of
           [] \<Rightarrow> if ip = [] then None else Some (of_nat (digits_val 0 ip))
         | c # fp \<Rightarrow>
             if c = CHR ''.'' \<and> list_all is_ascii_digit fp \<and> (ip \<noteq> [] \<or> fp \<noteq> [])
             then Some (of_nat (digits_val 0 (ip @ fp)) / 10 ^ length fp)
             else None)"

definition dec_int :: "string \<Rightarrow> int option" where
  "dec_int s =
     (case s of
        [] \<Rightarrow> None
      | c # cs \<Rightarrow>
          if c = CHR ''-'' then map_option (\<lambda>n. - int n) (unsigned_int cs)
          else if c = CHR ''+'' then map_option int (unsigned_int cs)
          else map_option int (unsigned_int s))"

definition dec_float :: "string \<Rightarrow> rat option" where
  "dec_float s =
     (case s of
        [] \<Rightarrow> None
      | c # cs \<Rightarrow>
          if c = CHR ''-'' then map_option uminus (unsigned_float cs)
          else if c = CHR ''+'' then unsigned_float cs
          else unsigned_float s)"

subsection \<open>parse_xyz_content\<close>

text \<open>An atom of the coordinate listing: \<^verbatim>\<open>(atom_symbol, coords)\<close>.\<close>

type_synonym 'f xyz_atom = "string \<times> 'f list"

text \<open>The loop over \<^verbatim>\<open>lines[start_index:]\<close>; \<open>atoms\<close> is the list appended to.
  \<^verbatim>\<open>parts[1:4]\<close> is \<open>take 3 (drop 1 parts)\<close>; the comprehension raises \<^verbatim>\<open>ValueError\<close> at
  the first field that does not convert, and the handler goes on with the next line.\<close>

fun xyz_loop :: "(string \<Rightarrow> 'f option) \<Rightarrow> 'f xyz_atom list \<Rightarrow> string list \<Rightarrow> 'f xyz_atom list" where
  "xyz_loop pfloat atoms [] = atoms"
| "xyz_loop pfloat atoms (line # ls) =
     (if strip line = [] then xyz_loop pfloat atoms ls
      else
        let parts = split_ws line in
        if 4 \<le> length parts then
          (case those (map pfloat (take 3 (drop 1 parts))) of
             Some coords \<Rightarrow> xyz_loop pfloat (atoms @ [(parts ! 0, coords)]) ls
           | None \<Rightarrow> xyz_loop pfloat atoms ls)
        else xyz_loop pfloat atoms ls)"

definition xyz_lines :: "string \<Rightarrow> string list" where
  "xyz_lines content = split_on newline (strip content)"

definition xyz_start_index :: "string list \<Rightarrow> nat" where
  "xyz_start_index lines = (if 0 < length lines \<and> isdigit (lines ! 0) then 2 else 0)"

definition parse_xyz_content :: "(string \<Rightarrow> 'f option) \<Rightarrow> string \<Rightarrow> 'f xyz_atom list" where
  "parse_xyz_content pfloat content =
     (let lines = xyz_lines content
      in xyz_loop pfloat [] (drop (xyz_start_index lines) lines))"

text \<open>What one line contributes, in the words of the description of the parser: an atom
  when the line has at least four fields and the three fields after the symbol convert.\<close>

definition xyz_record :: "(string \<Rightarrow> 'f option) \<Rightarrow> string \<Rightarrow> 'f xyz_atom option" where
  "xyz_record pfloat line =
     (let parts = split_ws line in
      if 4 \<le> length parts then
        map_option (\<lambda>coords. (parts ! 0, coords)) (those (map pfloat (take 3 (drop 1 parts))))
      else None)"

subsection \<open>Regular expressions\<close>

text \<open>
  The fragment of Python's \<^verbatim>\<open>re\<close> syntax that the patterns of the source use. A
  character class is a literal, \<^verbatim>\<open>\d\<close>, \<^verbatim>\<open>\s\<close>, \<^verbatim>\<open>\S\<close>, \<^verbatim>\<open>.\<close> (any character but
  a newline) or a bracket \<^verbatim>\<open>[...]\<close> of classes. A pattern is a sequence of items:
  one character of a class, \<^verbatim>\<open>c+\<close> (greedy), a group \<^verbatim>\<open>(c+)\<close> (greedy, captured)
  and \<^verbatim>\<open>.*?\<close> (lazy).
\<close>

datatype cls = Lit char | Digit | Space | NonSpace | Dot | OneOf "cls list"

datatype tok = Ch cls | Plus cls | Cap cls | LazyDot

fun cls_mem :: "cls \<Rightarrow> char \<Rightarrow> bool" where
  "cls_mem (Lit d) c = (c = d)"
| "cls_mem Digit c = is_ascii_digit c"
| "cls_mem Space c = is_space c"
| "cls_mem NonSpace c = (\<not> is_space c)"
| "cls_mem Dot c = (c \<noteq> newline)"
| "cls_mem (OneOf cs) c = (\<exists>x \<in> set cs. cls_mem x c)"

text \<open>Backtracking, in the order of the \<^verbatim>\<open>re\<close> engine. \<open>greedy p k cap s\<close> takes one or
  more characters satisfying \<open>p\<close>, the longest run first, and hands the text taken and
  the rest to the continuation \<open>k\<close>; \<open>lazy p k s\<close> takes none or more, the shortest run
  first. The result of a match is the list of the captured groups, in order.\<close>

fun greedy :: "(char \<Rightarrow> bool) \<Rightarrow> (string \<Rightarrow> string \<Rightarrow> 'a option) \<Rightarrow> string \<Rightarrow> string \<Rightarrow> 'a option" where
  "greedy p k cap [] = None"
| "greedy p k cap (x # xs) =
     (if p x then
        (case greedy p k (cap @ [x]) xs of
           Some r \<Rightarrow> Some r
         | None \<Rightarrow> k (cap @ [x]) xs)
      else None)"

fun lazy :: "(char \<Rightarrow> bool) \<Rightarrow> (string \<Rightarrow> 'a option) \<Rightarrow> string \<Rightarrow> 'a option" where
  "lazy p k [] = k []"
| "lazy p k (x # xs) =
     (case k (x # xs) of
        Some r \<Rightarrow> Some r
      | None \<Rightarrow> if p x then lazy p k xs else None)"

primrec rmatch :: "tok list \<Rightarrow> string \<Rightarrow> string list option" where
  "rmatch [] s = Some []"
| "rmatch (t # ts) s =
     (case t of
        Ch c \<Rightarrow> (case s of [] \<Rightarrow> None | x # xs \<Rightarrow> if cls_mem c x then rmatch ts xs else None)
      | Plus c \<Rightarrow> greedy (cls_mem c) (\<lambda>cap rest. rmatch ts rest) [] s
      | Cap c \<Rightarrow> greedy (cls_mem c) (\<lambda>cap rest. map_option ((#) cap) (rmatch ts rest)) [] s
      | LazyDot \<Rightarrow> lazy (cls_mem Dot) (rmatch ts) s)"

text \<open>\<^verbatim>\<open>re.search(pattern, s)\<close>: the match at the leftmost position that has one;
  \<open>None\<close> when no position has. \<open>Some g\<close> holds \<^verbatim>\<open>group(1)\<close>, \<^verbatim>\<open>group(2)\<close>, ...\<close>

fun re_search :: "tok list \<Rightarrow> string \<Rightarrow> string list option" where
  "re_search pat [] = rmatch pat []"
| "re_search pat (c # cs) =
     (case rmatch pat (c # cs) of Some g \<Rightarrow> Some g | None \<Rightarrow> re_search pat cs)"

definition lit :: "string \<Rightarrow> tok list" where
  "lit s = map (\<lambda>c. Ch (Lit c)) s"



subsection \<open>Python values and dictionaries\<close>

text \<open>The values stored in the result dictionaries. A \<^verbatim>\<open>dict\<close> is an association list
  in insertion order; \<^verbatim>\<open>d[k] = v\<close> is \<^const>\<open>AList.update\<close>, which replaces the value of
  a key in place and appends a new key.\<close>

datatype 'f pyval =
    PNone
  | PInt int
  | PFloat 'f
  | PList "'f pyval list"
  | PDict "(string \<times> 'f pyval) list"

type_synonym 'f dict = "(string \<times> 'f pyval) list"

text \<open>\<^verbatim>\<open>d[k]\<close>.\<close>

definition dict_get :: "'f dict \<Rightarrow> string \<Rightarrow> error + 'f pyval" where
  "dict_get d k = (case map_of d k of None \<Rightarrow> Inl KeyError | Some v \<Rightarrow> Inr v)"


subsection \<open>extract_optimized_structure\<close>

text \<open>The table \<^verbatim>\<open>atomic_num_to_symbol\<close> of the source. The body of the function never
  reads it.\<close>

definition atomic_num_to_symbol :: "int \<Rightarrow> string option" where
  "atomic_num_to_symbol =
     map_of
       [(1, ''H''), (2, ''He''), (3, ''Li''), (4, ''Be''), (5, ''B''), (6, ''C''), (7, ''N''),
        (8, ''O''), (9, ''F''), (10, ''Ne''), (11, ''Na''), (12, ''Mg''), (13, ''Al''),
        (14, ''Si''), (15, ''P''), (16, ''S''), (17, ''Cl''), (18, ''Ar''), (19, ''K''),
        (20, ''Ca'')]"

text \<open>An entry \<^verbatim>\<open>[symbol, x, y, z]\<close> of the list returned.\<close>

type_synonym 'f log_atom = "int \<times> 'f \<times> 'f \<times> 'f"

text \<open>The three patterns given to \<^verbatim>\<open>re.search\<close>. In \<^verbatim>\<open>"Optimization completed."\<close> the
  final dot is the wildcard.\<close>

definition pat_completed :: "tok list" where
  "pat_completed = lit ''Optimization completed'' @ [Ch Dot]"

definition pat_orientation :: "tok list" where
  "pat_orientation = lit ''Standard orientation''"

definition pat_dashes :: "tok list" where
  "pat_dashes = lit ''-------''"

text \<open>\<^verbatim>\<open>for i, x in enumerate(xs): if P(x): ...i...; break\<close>: the index found, if any.\<close>

fun first_index :: "('a \<Rightarrow> bool) \<Rightarrow> 'a list \<Rightarrow> nat option" where
  "first_index P [] = None"
| "first_index P (x # xs) = (if P x then Some 0 else map_option Suc (first_index P xs))"

text \<open>The value of \<^verbatim>\<open>iline\<close> after the two search loops: it starts at 0, the first
  loop sets it to the first line matching the convergence pattern, the second adds the
  offset of the first header line in \<^verbatim>\<open>log_lines[iline:]\<close>; a loop that finds nothing
  leaves it as it is.\<close>

definition geometry_start :: "string list \<Rightarrow> nat" where
  "geometry_start log_lines =
     (let iline = (case first_index (\<lambda>line. re_search pat_completed line \<noteq> None) log_lines of
                     Some i \<Rightarrow> i | None \<Rightarrow> 0)
      in case first_index (\<lambda>line. re_search pat_orientation line \<noteq> None) (drop iline log_lines) of
           Some i \<Rightarrow> iline + i
         | None \<Rightarrow> iline)"

text \<open>The loop over \<^verbatim>\<open>log_lines[iline+5:]\<close>.\<close>

fun read_records ::
  "(string \<Rightarrow> int option) \<Rightarrow> (string \<Rightarrow> 'f option) \<Rightarrow> 'f log_atom list \<Rightarrow> string list
     \<Rightarrow> error + 'f log_atom list" where
  "read_records pint pfloat atoms [] = Inr atoms"
| "read_records pint pfloat atoms (line # ls) =
     (if re_search pat_dashes line \<noteq> None then Inr atoms
      else
        let tmp = split_ws line in
        bindE (bindE (py_index tmp 1) (to_int pint)) (\<lambda>symbol.
        bindE (bindE (py_index tmp (- 3)) (to_float pfloat)) (\<lambda>x.
        bindE (bindE (py_index tmp (- 2)) (to_float pfloat)) (\<lambda>y.
        bindE (bindE (py_index tmp (- 1)) (to_float pfloat)) (\<lambda>z.
        read_records pint pfloat (atoms @ [(symbol, x, y, z)]) ls)))))"

text \<open>The statements of the \<^verbatim>\<open>try\<close> block up to \<^verbatim>\<open>f.read()\<close>. \<open>fs\<close> is the file
  system: \<open>fs name\<close> is the text of the file \<open>name\<close>, \<open>None\<close> when opening or reading it
  raises. \<^verbatim>\<open>s[-4:]\<close> is \<open>drop (length s - 4) s\<close> and \<^verbatim>\<open>s[:-4]\<close> is
  \<open>take (length s - 4) s\<close>.\<close>

definition read_log :: "(string \<Rightarrow> string option) \<Rightarrow> string \<Rightarrow> string \<Rightarrow> error + string" where
  "read_log fs filename path =
     (let filename = (if drop (length filename - 4) filename \<notin> set [''.com'', ''.gjf'']
                      then filename @ ''.com'' else filename);
          log_name = take (length filename - 4) filename @ ''.log''
      in bindE (py_index path (- 1)) (\<lambda>c.
           let path = (if c \<noteq> CHR ''/'' then path @ ''/'' else path)
           in case fs (path @ log_name) of
                None \<Rightarrow> Inl OSError
              | Some log_content \<Rightarrow> Inr log_content))"

text \<open>The rest of the \<^verbatim>\<open>try\<close> block; \<open>Inr None\<close> is \<^verbatim>\<open>return None\<close>.\<close>

definition structure_of_log ::
  "(string \<Rightarrow> int option) \<Rightarrow> (string \<Rightarrow> 'f option) \<Rightarrow> string \<Rightarrow> error + 'f log_atom list option" where
  "structure_of_log pint pfloat log_content =
     (if \<not> contains ''Normal termination'' log_content then Inr None
      else if \<not> contains ''Optimization completed.'' log_content then Inr None
      else
        let log_lines = split_on newline log_content;
            iline = geometry_start log_lines
        in bindE (read_records pint pfloat [] (drop (iline + 5) log_lines)) (\<lambda>atoms.
             Inr (if atoms \<noteq> [] then Some atoms else None)))"

text \<open>The function: \<^verbatim>\<open>except Exception\<close> turns every exception of the block into
  \<^verbatim>\<open>None\<close>.\<close>

definition extract_optimized_structure ::
  "(string \<Rightarrow> int option) \<Rightarrow> (string \<Rightarrow> 'f option) \<Rightarrow> (string \<Rightarrow> string option) \<Rightarrow> string \<Rightarrow> string
     \<Rightarrow> 'f log_atom list option" where
  "extract_optimized_structure pint pfloat fs filename path =
     (case bindE (read_log fs filename path) (structure_of_log pint pfloat) of
        Inl e \<Rightarrow> None
      | Inr r \<Rightarrow> r)"

text \<open>One record of the geometry table, in the words of its description: the second
  field is the atomic number, the last three fields are the coordinates.\<close>

definition record_spec ::
  "(string \<Rightarrow> int option) \<Rightarrow> (string \<Rightarrow> 'f option) \<Rightarrow> string \<Rightarrow> 'f log_atom option" where
  "record_spec pint pfloat line =
     (let tmp = split_ws line; n = length tmp in
      if 3 \<le> n then
        (case (pint (tmp ! 1), pfloat (tmp ! (n - 3)), pfloat (tmp ! (n - 2)), pfloat (tmp ! (n - 1))) of
           (Some a, Some x, Some y, Some z) \<Rightarrow> Some (a, x, y, z)
         | _ \<Rightarrow> None)
      else None)"

subsection \<open>extract_fchk_data\<close>

text \<open>\<^verbatim>\<open>f.readlines()\<close> on the text of the file: every line keeps its newline.\<close>

fun readlines :: "string \<Rightarrow> string list" where
  "readlines [] = []"
| "readlines (c # cs) =
     (if c = newline then [c] # readlines cs
      else (case readlines cs of [] \<Rightarrow> [[c]] | l # ls \<Rightarrow> (c # l) # ls))"

text \<open>\<^verbatim>\<open>float(line.split()[-1])\<close> and \<^verbatim>\<open>int(line.split()[-1])\<close>.\<close>

definition last_float :: "(string \<Rightarrow> 'f option) \<Rightarrow> string \<Rightarrow> error + 'f" where
  "last_float pfloat line = bindE (py_index (split_ws line) (- 1)) (to_float pfloat)"

definition last_int :: "(string \<Rightarrow> int option) \<Rightarrow> string \<Rightarrow> error + int" where
  "last_int pint line = bindE (py_index (split_ws line) (- 1)) (to_int pint)"

text \<open>The scanning loop; \<open>i\<close> is the index of the line at the head of the list. The
  result is \<^verbatim>\<open>data\<close> and \<^verbatim>\<open>iline\<close> after the loop; \<^verbatim>\<open>iline\<close> is 0 when the loop ends
  without \<^verbatim>\<open>break\<close>.\<close>

fun fchk_scan ::
  "(string \<Rightarrow> int option) \<Rightarrow> (string \<Rightarrow> 'f option) \<Rightarrow> nat \<Rightarrow> 'f dict \<Rightarrow> string list
     \<Rightarrow> error + ('f dict \<times> nat)" where
  "fchk_scan pint pfloat i data [] = Inr (data, 0)"
| "fchk_scan pint pfloat i data (line # ls) =
     bindE
       (if contains ''Total Energy'' line
        then bindE (last_float pfloat line) (\<lambda>v. Inr (AList.update ''Energy'' (PFloat v) data))
        else Inr data)
       (\<lambda>data.
          if contains ''Number of electrons'' line
          then bindE (last_int pint line) (\<lambda>n.
                 fchk_scan pint pfloat (Suc i) (AList.update ''Ne'' (PInt n) data) ls)
          else if contains ''Alpha Orbital Energies'' line then Inr (data, i)
          else fchk_scan pint pfloat (Suc i) data ls)"

definition nline_of :: "int \<Rightarrow> int" where
  "nline_of nbasis = (if nbasis mod 5 = 0 then nbasis div 5 else nbasis div 5 + 1)"

text \<open>\<^verbatim>\<open>list(map(float, tokens))\<close>.\<close>

definition floats :: "(string \<Rightarrow> 'f option) \<Rightarrow> string list \<Rightarrow> error + 'f list" where
  "floats pfloat ts = (case those (map pfloat ts) of None \<Rightarrow> Inl ValueError | Some vs \<Rightarrow> Inr vs)"

text \<open>The loop \<^verbatim>\<open>for i in range(nline)\<close>, over the list of the values of \<^verbatim>\<open>i\<close>.\<close>

fun read_orbitals ::
  "(string \<Rightarrow> 'f option) \<Rightarrow> string list \<Rightarrow> nat \<Rightarrow> 'f list \<Rightarrow> nat list \<Rightarrow> error + 'f list" where
  "read_orbitals pfloat lines iline orb_energies [] = Inr orb_energies"
| "read_orbitals pfloat lines iline orb_energies (i # rest) =
     bindE (py_index lines (int (i + iline + 1))) (\<lambda>line.
     bindE (floats pfloat (split_ws line)) (\<lambda>vs.
     read_orbitals pfloat lines iline (orb_energies @ vs) rest))"

text \<open>\<^verbatim>\<open>data["Ne"]\<close> where an integer is needed.\<close>

definition dict_int :: "'f dict \<Rightarrow> string \<Rightarrow> error + int" where
  "dict_int d k =
     bindE (dict_get d k) (\<lambda>v. case v of PInt n \<Rightarrow> Inr n | _ \<Rightarrow> Inl TypeError)"

text \<open>The value of \<^verbatim>\<open>orb_energies\<close> once the reading loop is over, from the lines of the
  file and the \<^verbatim>\<open>iline\<close> of the scan.\<close>

definition fchk_orbitals ::
  "(string \<Rightarrow> int option) \<Rightarrow> (string \<Rightarrow> 'f option) \<Rightarrow> string list \<Rightarrow> nat \<Rightarrow> error + 'f list" where
  "fchk_orbitals pint pfloat lines iline =
     bindE (bindE (py_index lines (int iline)) (last_int pint)) (\<lambda>nbasis.
       let nline = nline_of nbasis
       in read_orbitals pfloat lines iline [] [0 ..< nat nline])"

text \<open>The function, on \<open>content\<close>, the text of the file \<^verbatim>\<open>fchk_name\<close> opened after
  \<^verbatim>\<open>os.chdir(path)\<close>. No exception is caught.\<close>

definition extract_fchk_data ::
  "(string \<Rightarrow> int option) \<Rightarrow> (string \<Rightarrow> 'f option) \<Rightarrow> string \<Rightarrow> error + 'f dict" where
  "extract_fchk_data pint pfloat content =
     (let data = [(''Energy'', PNone), (''HOMO'', PNone), (''LUMO'', PNone)];
          lines = readlines content
      in bindE (fchk_scan pint pfloat 0 data lines) (\<lambda>(data, iline).
         bindE (fchk_orbitals pint pfloat lines iline) (\<lambda>orb_energies.
         bindE (dict_int data ''Ne'') (\<lambda>ne.
         bindE (py_index orb_energies (ne div 2 - 1)) (\<lambda>homo.
         let data = AList.update ''HOMO'' (PFloat homo) data in
         bindE (dict_int data ''Ne'') (\<lambda>ne.
         bindE (py_index orb_energies (ne div 2)) (\<lambda>lumo.
         Inr (AList.update ''LUMO'' (PFloat lumo) data))))))))"

text \<open>The statements of the function after the reading loop (the two assignments and the
  \<^verbatim>\<open>return\<close>), from \<^verbatim>\<open>data\<close> and \<^verbatim>\<open>orb_energies\<close>.\<close>

definition fchk_finish :: "'f dict \<Rightarrow> 'f list \<Rightarrow> error + 'f dict" where
  "fchk_finish data orb_energies =
     bindE (dict_int data ''Ne'') (\<lambda>ne.
     bindE (py_index orb_energies (ne div 2 - 1)) (\<lambda>homo.
     let data = AList.update ''HOMO'' (PFloat homo) data in
     bindE (dict_int data ''Ne'') (\<lambda>ne.
     bindE (py_index orb_energies (ne div 2)) (\<lambda>lumo.
     Inr (AList.update ''LUMO'' (PFloat lumo) data)))))"

subsection \<open>parse_multiwfn_surface_analysis\<close>
























subsection \<open>Sample logs\<close>

text \<open>A small log in the layout of a Gaussian log, for running the extractor: a geometry
  block before the convergence line, the converged block after it, and the termination
  line. \<open>sample_fs log_content\<close> is a file system holding the one file
  \<^verbatim>\<open>/tmp/job.log\<close>.\<close>

definition sample_head :: string where
  "sample_head =
     '' Standard orientation:\<newline> Optimization completed.\<newline> Standard orientation:\<newline> -------\<newline> Center Atomic Atomic Coordinates\<newline> Number Number Type X Y Z\<newline> -------\<newline>''"

definition sample_tail :: string where
  "sample_tail = '' -------\<newline> Normal termination of Gaussian 16.\<newline>''"

definition sample_log :: string where
  "sample_log = sample_head @ '' 1 6 0 0.0 0.0 0.0\<newline> 2 8 0 0.0 0.0 1.5\<newline>'' @ sample_tail"

definition sample_fs :: "string \<Rightarrow> string \<Rightarrow> string option" where
  "sample_fs log_content name = (if name = ''/tmp/job.log'' then Some log_content else None)"

definition sample_log_bad :: string where
  "sample_log_bad = sample_head @ '' 1 6 0 0.0 0.0 0.0\<newline> 2 C 0 0.0 0.0 1.5\<newline>'' @ sample_tail"

definition sample_log_short :: string where
  "sample_log_short = sample_head @ '' 1 6 0.0\<newline>'' @ sample_tail"

text \<open>A summary file with ten electrons and seven orbital energies on two lines.\<close>

definition sample_fchk :: string where
  "sample_fchk =
     ''Number of electrons I 10\<newline>Total Energy R -76.5\<newline>Alpha Orbital Energies R N= 7\<newline> -20.5 -1.25 -0.75 -0.5 -0.25\<newline> 0.125 0.5\<newline>Total SCF Density R N= 28\<newline>''"

text \<open>The same file cut after the first line of orbital energies.\<close>

definition sample_fchk_short :: string where
  "sample_fchk_short =
     ''Number of electrons I 10\<newline>Total Energy R -76.5\<newline>Alpha Orbital Energies R N= 7\<newline> -20.5 -1.25 -0.75 -0.5 -0.25\<newline>''"

text \<open>\<open>touches K r r'\<close>: the dictionaries \<open>r\<close> and \<open>r'\<close> have the same keys in the same
  order and the same values except possibly under \<open>K\<close>.\<close>

definition touches :: "string \<Rightarrow> 'f dict \<Rightarrow> 'f dict \<Rightarrow> bool" where
  "touches K r r' \<longleftrightarrow> map fst r' = map fst r \<and> (\<forall>k. k \<noteq> K \<longrightarrow> map_of r' k = map_of r k)"






section \<open>Properties\<close>

subsection \<open>The coordinate listing\<close>

lemma split_acc_all_space: "list_all is_space s \<Longrightarrow> split_acc [] s = []"
  by (induction s) auto

lemma dropWhile_rev_empty: "dropWhile P (rev (dropWhile P s)) = [] \<Longrightarrow> dropWhile P s = []"
proof (rule ccontr)
  assume a: "dropWhile P (rev (dropWhile P s)) = []" and b: "dropWhile P s \<noteq> []"
  from b have "\<not> P (hd (dropWhile P s))" by (rule hd_dropWhile)
  moreover from b have "hd (dropWhile P s) \<in> set (rev (dropWhile P s))" by simp
  moreover from a have "\<forall>x \<in> set (rev (dropWhile P s)). P x"
    by (simp add: dropWhile_eq_Nil_conv)
  ultimately show False by blast
qed

lemma strip_empty_split: "strip line = [] \<Longrightarrow> split_ws line = []"
proof -
  assume "strip line = []"
  then have "dropWhile is_space line = []"
    unfolding strip_def using dropWhile_rev_empty [of is_space line] by simp
  then have "list_all is_space line"
    by (simp add: dropWhile_eq_Nil_conv list_all_iff)
  then show ?thesis
    unfolding split_ws_def by (rule split_acc_all_space)
qed

lemma xyz_loop_map_filter:
  "xyz_loop pfloat atoms ls = atoms @ List.map_filter (xyz_record pfloat) ls"
proof (induction ls arbitrary: atoms)
  case Nil
  show ?case by (simp add: List.map_filter_simps)
next
  case (Cons line ls)
  show ?case
  proof (cases "strip line = []")
    case True
    then have "xyz_record pfloat line = None"
      by (simp add: xyz_record_def strip_empty_split)
    with True Cons show ?thesis by (simp add: List.map_filter_simps)
  next
    case False
    with Cons show ?thesis
      by (auto simp: xyz_record_def Let_def List.map_filter_simps split: option.splits)
  qed
qed

lemma those_eq_Some: "those xs = Some ys \<longleftrightarrow> xs = map Some ys"
  by (induction xs arbitrary: ys) (auto split: option.splits)

lemma map_filter_all_Some:
  "\<forall>x \<in> set xs. f x \<noteq> None \<Longrightarrow> map Some (List.map_filter f xs) = map f xs"
  by (induction xs) (auto simp: List.map_filter_simps split: option.splits)

text \<open>
  C5, as amended. The atoms returned are what the lines after the start index contribute,
  in order, a line contributing nothing being passed over; a line contributes an atom
  exactly when it has at least four whitespace-separated fields and its second, third and
  fourth fields convert to floats, and the coordinates of the atom are those three fields.
\<close>

theorem parse_xyz_content_records:
  "parse_xyz_content pfloat content =
     List.map_filter (xyz_record pfloat)
       (drop (xyz_start_index (xyz_lines content)) (xyz_lines content))
   \<and> (xyz_record pfloat line = Some (symb, coords) \<longleftrightarrow>
        4 \<le> length (split_ws line) \<and> symb = split_ws line ! 0 \<and>
        map pfloat (take 3 (drop 1 (split_ws line))) = map Some coords)"
  by (auto simp: parse_xyz_content_def xyz_loop_map_filter xyz_record_def Let_def those_eq_Some)

theorem parse_xyz_content_records_witness:
  "parse_xyz_content dec_float ''C 1.0 2.0 3.0 x\<newline>H 1.0\<newline>O 0.0 0.0 1.5'' =
     [(''C'', [1, 2, 3]), (''O'', [0, 0, 3 / 2])]"
proof -
  have l: "drop (xyz_start_index (xyz_lines ''C 1.0 2.0 3.0 x\<newline>H 1.0\<newline>O 0.0 0.0 1.5''))
             (xyz_lines ''C 1.0 2.0 3.0 x\<newline>H 1.0\<newline>O 0.0 0.0 1.5'') =
           [''C 1.0 2.0 3.0 x'', ''H 1.0'', ''O 0.0 0.0 1.5'']"
    by code_simp
  have r1: "xyz_record dec_float ''C 1.0 2.0 3.0 x'' = Some (''C'', [1, 2, 3])" by code_simp
  have r2: "xyz_record dec_float ''H 1.0'' = None" by code_simp
  have r3: "xyz_record dec_float ''O 0.0 0.0 1.5'' = Some (''O'', [0, 0, 3 / 2])" by code_simp
  show ?thesis
    using parse_xyz_content_records
            [of dec_float "''C 1.0 2.0 3.0 x\<newline>H 1.0\<newline>O 0.0 0.0 1.5''" "[]" "[]" "[]"]
    by (simp add: l r1 r2 r3)
qed

text \<open>
  C5 as stated fails on a line of five fields: the trailing three fields of
  \<^verbatim>\<open>C 1.0 2.0 3.0 x\<close> do not all convert, and the line yields an atom all the same,
  with the coordinates of its second to fourth fields.
\<close>

theorem parse_xyz_content_trailing_counterexample:
  "split_ws ''C 1.0 2.0 3.0 x'' = [''C'', ''1.0'', ''2.0'', ''3.0'', ''x''] \<and>
   dec_float ''x'' = None \<and>
   parse_xyz_content dec_float ''C 1.0 2.0 3.0 x'' = [(''C'', [1, 2, 3])]"
  by code_simp

text \<open>
  C7. For a listing whose first line is a digit-only count, followed by a comment line
  and then by well-formed atom records only, as many as the count says, the atoms
  returned are the atoms of the record lines, one for one and in the order of the lines;
  their number is the declared count.
\<close>

theorem parse_xyz_content_count:
  assumes "xyz_lines content = cnt # comment # recs"
    and "isdigit cnt"
    and "pint cnt = Some n"
    and "n = int (length recs)"
    and "\<forall>l \<in> set recs. xyz_record pfloat l \<noteq> None"
  shows "int (length (parse_xyz_content pfloat content)) = n \<and>
         map Some (parse_xyz_content pfloat content) = map (xyz_record pfloat) recs"
proof -
  have "xyz_start_index (xyz_lines content) = 2"
    using assms(1,2) by (simp add: xyz_start_index_def)
  then have eq: "parse_xyz_content pfloat content = List.map_filter (xyz_record pfloat) recs"
    using assms(1) by (simp add: parse_xyz_content_def xyz_loop_map_filter)
  have m: "map Some (parse_xyz_content pfloat content) = map (xyz_record pfloat) recs"
    unfolding eq using assms(5) by (rule map_filter_all_Some)
  have "length (map Some (parse_xyz_content pfloat content)) =
        length (map (xyz_record pfloat) recs)"
    using m by simp
  then have "length (parse_xyz_content pfloat content) = length recs" by simp
  with m assms(4) show ?thesis by simp
qed

theorem parse_xyz_content_count_witness:
  "int (length (parse_xyz_content dec_float
      ''2\<newline>comment\<newline>C 0.0 0.0 0.0\<newline>O 0.0 0.0 1.5\<newline>'')) = 2 \<and>
   map Some (parse_xyz_content dec_float
      ''2\<newline>comment\<newline>C 0.0 0.0 0.0\<newline>O 0.0 0.0 1.5\<newline>'') =
     [Some (''C'', [0, 0, 0]), Some (''O'', [0, 0, 3 / 2])]"
proof -
  have h1: "xyz_lines ''2\<newline>comment\<newline>C 0.0 0.0 0.0\<newline>O 0.0 0.0 1.5\<newline>'' =
      ''2'' # ''comment'' # [''C 0.0 0.0 0.0'', ''O 0.0 0.0 1.5'']"
    by code_simp
  have h2: "isdigit ''2''" by code_simp
  have h3: "dec_int ''2'' = Some 2" by code_simp
  have h4: "(2::int) = int (length [''C 0.0 0.0 0.0'', ''O 0.0 0.0 1.5''])" by simp
  have r1: "xyz_record dec_float ''C 0.0 0.0 0.0'' = Some (''C'', [0, 0, 0])" by code_simp
  have r2: "xyz_record dec_float ''O 0.0 0.0 1.5'' = Some (''O'', [0, 0, 3 / 2])" by code_simp
  have h5: "\<forall>l \<in> set [''C 0.0 0.0 0.0'', ''O 0.0 0.0 1.5'']. xyz_record dec_float l \<noteq> None"
    using r1 r2 by simp
  show ?thesis
    using parse_xyz_content_count [where pint = dec_int and pfloat = dec_float, OF h1 h2 h3 h4 h5]
      r1 r2
    by simp
qed

subsection \<open>The optimized geometry\<close>

lemma rmatch_lit: "rmatch (lit p) s = (if starts_with p s then Some [] else None)"
proof (induction p arbitrary: s)
  case Nil
  show ?case by (simp add: lit_def)
next
  case (Cons a p)
  then have ih: "\<And>s. rmatch (map (\<lambda>c. Ch (Lit c)) p) s = (if starts_with p s then Some [] else None)"
    by (simp add: lit_def)
  show ?case by (cases s) (auto simp: lit_def ih)
qed

lemma re_search_lit: "(re_search (lit p) s \<noteq> None) = contains p s"
proof (induction s)
  case Nil
  show ?case by (cases p) (simp_all add: rmatch_lit)
next
  case (Cons c cs)
  then show ?case by (simp add: rmatch_lit)
qed

lemma first_index_Some:
  "first_index P xs = Some c \<longleftrightarrow> c < length xs \<and> P (xs ! c) \<and> (\<forall>j<c. \<not> P (xs ! j))"
proof (induction xs arbitrary: c)
  case Nil
  show ?case by simp
next
  case (Cons x xs)
  show ?case
  proof (cases "P x")
    case True
    then show ?thesis by (cases c) auto
  next
    case False
    show ?thesis
    proof (cases c)
      case 0
      with False show ?thesis by simp
    next
      case (Suc d)
      have "(\<forall>j<Suc d. \<not> P ((x # xs) ! j)) = (\<forall>j<d. \<not> P (xs ! j))"
        using False by (auto simp: less_Suc_eq_0_disj)
      with False Suc Cons[of d] show ?thesis by auto
    qed
  qed
qed

lemma record_spec_Some:
  "record_spec pint pfloat line = Some (a, x, y, z) \<Longrightarrow>
   bindE (bindE (py_index (split_ws line) 1) (to_int pint)) (\<lambda>symbol.
   bindE (bindE (py_index (split_ws line) (- 3)) (to_float pfloat)) (\<lambda>x.
   bindE (bindE (py_index (split_ws line) (- 2)) (to_float pfloat)) (\<lambda>y.
   bindE (bindE (py_index (split_ws line) (- 1)) (to_float pfloat)) (\<lambda>z.
   k symbol x y z)))) = k a x y z"
  apply (simp add: record_spec_def Let_def split: if_splits option.splits)
  apply (simp add: bindE_def py_index_def to_int_def to_float_def)
  apply (simp add: nat_diff_distrib' of_nat_diff)
  done

lemma record_spec_None:
  "record_spec pint pfloat line = None \<Longrightarrow>
   \<exists>e. bindE (bindE (py_index (split_ws line) 1) (to_int pint)) (\<lambda>symbol.
   bindE (bindE (py_index (split_ws line) (- 3)) (to_float pfloat)) (\<lambda>x.
   bindE (bindE (py_index (split_ws line) (- 2)) (to_float pfloat)) (\<lambda>y.
   bindE (bindE (py_index (split_ws line) (- 1)) (to_float pfloat)) (\<lambda>z.
   k symbol x y z)))) = Inl e"
  apply (simp add: record_spec_def Let_def split: if_splits option.splits)
  apply (auto simp add: bindE_def py_index_def to_int_def to_float_def nat_diff_distrib' split: sum.splits option.splits if_splits)
  done

lemma read_records_Some:
  "those (map (record_spec pint pfloat) (takeWhile (\<lambda>l. re_search pat_dashes l = None) ls)) = Some as
   \<Longrightarrow> read_records pint pfloat acc ls = Inr (acc @ as)"
proof (induction ls arbitrary: acc as)
  case Nil
  then show ?case by simp
next
  case (Cons line ls)
  show ?case
  proof (cases "re_search pat_dashes line = None")
    case False
    with Cons.prems show ?thesis by auto
  next
    case True
    from Cons.prems True obtain a as' where
      r: "record_spec pint pfloat line = Some a" and
      t: "those (map (record_spec pint pfloat) (takeWhile (\<lambda>l. re_search pat_dashes l = None) ls)) = Some as'" and
      e: "as = a # as'"
      by (auto split: option.splits)
    obtain n x y z where a: "a = (n, x, y, z)" by (cases a) auto
    have "read_records pint pfloat acc (line # ls) = read_records pint pfloat (acc @ [(n, x, y, z)]) ls"
      using True record_spec_Some [OF r [unfolded a], of "\<lambda>s x y z. read_records pint pfloat (acc @ [(s, x, y, z)]) ls"]
      by (simp add: Let_def)
    also have "\<dots> = Inr ((acc @ [(n, x, y, z)]) @ as')" by (rule Cons.IH [OF t])
    finally show ?thesis by (simp add: e a)
  qed
qed

lemma read_records_None:
  "those (map (record_spec pint pfloat) (takeWhile (\<lambda>l. re_search pat_dashes l = None) ls)) = None
   \<Longrightarrow> \<exists>e. read_records pint pfloat acc ls = Inl e"
proof (induction ls arbitrary: acc)
  case Nil
  then show ?case by simp
next
  case (Cons line ls)
  show ?case
  proof (cases "re_search pat_dashes line = None")
    case False
    with Cons.prems show ?thesis by auto
  next
    case True
    show ?thesis
    proof (cases "record_spec pint pfloat line")
      case None
      from record_spec_None [OF None, of "\<lambda>s x y z. read_records pint pfloat (acc @ [(s, x, y, z)]) ls"]
      show ?thesis using True by (simp add: Let_def)
    next
      case (Some a)
      obtain n x y z where a: "a = (n, x, y, z)" by (cases a) auto
      from Cons.prems True Some have
        t: "those (map (record_spec pint pfloat) (takeWhile (\<lambda>l. re_search pat_dashes l = None) ls)) = None"
        by (auto split: option.splits)
      have "read_records pint pfloat acc (line # ls) = read_records pint pfloat (acc @ [(n, x, y, z)]) ls"
        using True record_spec_Some [OF Some [unfolded a], of "\<lambda>s x y z. read_records pint pfloat (acc @ [(s, x, y, z)]) ls"]
        by (simp add: Let_def)
      with Cons.IH [OF t, of "acc @ [(n, x, y, z)]"] show ?thesis by simp
    qed
  qed
qed

lemma re_search_lit_None: "(re_search (lit p) s = None) = (\<not> contains p s)"
  using re_search_lit [of p s] by blast

lemma dashes_contains: "(re_search pat_dashes l = None) = (\<not> contains ''-------'' l)"
  by (simp add: pat_dashes_def re_search_lit_None)

lemma structure_of_log_block:
  assumes "contains ''Normal termination'' log_content"
    and "contains ''Optimization completed.'' log_content"
  shows "structure_of_log pint pfloat log_content =
     (case those (map (record_spec pint pfloat)
             (takeWhile (\<lambda>l. \<not> contains ''-------'' l)
                (drop (geometry_start (split_on newline log_content) + 5) (split_on newline log_content)))) of
        None \<Rightarrow> structure_of_log pint pfloat log_content
      | Some atoms \<Rightarrow> Inr (if atoms = [] then None else Some atoms))"
proof (cases "those (map (record_spec pint pfloat)
             (takeWhile (\<lambda>l. \<not> contains ''-------'' l)
                (drop (geometry_start (split_on newline log_content) + 5) (split_on newline log_content))))")
  case None
  then show ?thesis by simp
next
  case (Some as)
  then have "those (map (record_spec pint pfloat)
             (takeWhile (\<lambda>l. re_search pat_dashes l = None)
                (drop (geometry_start (split_on newline log_content) + 5) (split_on newline log_content)))) = Some as"
    by (simp add: dashes_contains)
  from read_records_Some [OF this, of "[]"] Some assms show ?thesis
    by (simp add: structure_of_log_def Let_def bindE_def)
qed

lemma structure_of_log_fail:
  assumes "contains ''Normal termination'' log_content"
    and "contains ''Optimization completed.'' log_content"
    and "those (map (record_spec pint pfloat)
             (takeWhile (\<lambda>l. \<not> contains ''-------'' l)
                (drop (geometry_start (split_on newline log_content) + 5) (split_on newline log_content)))) = None"
  shows "\<exists>e. structure_of_log pint pfloat log_content = Inl e"
proof -
  from assms(3) have "those (map (record_spec pint pfloat)
             (takeWhile (\<lambda>l. re_search pat_dashes l = None)
                (drop (geometry_start (split_on newline log_content) + 5) (split_on newline log_content)))) = None"
    by (simp add: dashes_contains)
  from read_records_None [OF this, of "[]"] assms(1,2) show ?thesis
    by (auto simp: structure_of_log_def Let_def bindE_def)
qed

lemma geometry_start_eq:
  assumes "c < length log_lines" "re_search pat_completed (log_lines ! c) \<noteq> None"
    "\<forall>j<c. re_search pat_completed (log_lines ! j) = None"
    "c \<le> h" "h < length log_lines" "contains ''Standard orientation'' (log_lines ! h)"
    "\<forall>j. c \<le> j \<and> j < h \<longrightarrow> \<not> contains ''Standard orientation'' (log_lines ! j)"
  shows "geometry_start log_lines = h"
proof -
  have c: "first_index (\<lambda>line. re_search pat_completed line \<noteq> None) log_lines = Some c"
    using assms(1-3) by (simp add: first_index_Some)
  have "first_index (\<lambda>line. re_search pat_orientation line \<noteq> None) (drop c log_lines) = Some (h - c)"
    unfolding first_index_Some using assms(1,4-7)
    by (auto simp: pat_orientation_def re_search_lit re_search_lit_None simp del: not_None_eq)
  with c assms(4) show ?thesis by (simp add: geometry_start_def)
qed

lemma those_eq_None: "those xs = None \<longleftrightarrow> None \<in> set xs"
  by (induction xs) (auto split: option.splits)

lemma record_spec_eq_None:
  "record_spec pint pfloat l = None \<longleftrightarrow>
     length (split_ws l) < 3 \<or> pint (split_ws l ! 1) = None \<or>
     (\<exists>i \<in> {1, 2, 3}. pfloat (split_ws l ! (length (split_ws l) - i)) = None)"
  by (auto simp: record_spec_def Let_def split: option.splits)

text \<open>
  C4. With both markers in the log, \<open>c\<close> the index of the first line matching the
  convergence pattern and \<open>h\<close> the index of the first line at or after \<open>c\<close> that contains
  \<^verbatim>\<open>Standard orientation\<close>, the function reads the lines from \<open>h + 5\<close> up to the first
  line containing seven dashes, takes of each the second field as the atomic number and
  the last three fields as the coordinates, and returns these atoms (\<^verbatim>\<open>None\<close> when a
  record does not convert or when there is no record).
\<close>

theorem extract_optimized_structure_block:
  assumes "read_log fs filename path = Inr log_content"
    and "contains ''Normal termination'' log_content"
    and "contains ''Optimization completed.'' log_content"
    and "log_lines = split_on newline log_content"
    and "c < length log_lines"
    and "re_search pat_completed (log_lines ! c) \<noteq> None"
    and "\<forall>j<c. re_search pat_completed (log_lines ! j) = None"
    and "c \<le> h"
    and "h < length log_lines"
    and "contains ''Standard orientation'' (log_lines ! h)"
    and "\<forall>j. c \<le> j \<and> j < h \<longrightarrow> \<not> contains ''Standard orientation'' (log_lines ! j)"
  shows "extract_optimized_structure pint pfloat fs filename path =
     (case those (map (record_spec pint pfloat)
              (takeWhile (\<lambda>l. \<not> contains ''-------'' l) (drop (h + 5) log_lines))) of
        None \<Rightarrow> None
      | Some atoms \<Rightarrow> if atoms = [] then None else Some atoms)"
proof -
  have g: "geometry_start (split_on newline log_content) = h"
    using assms(5-11) unfolding assms(4) by (rule geometry_start_eq)
  show ?thesis
  proof (cases "those (map (record_spec pint pfloat)
              (takeWhile (\<lambda>l. \<not> contains ''-------'' l) (drop (h + 5) log_lines)))")
    case None
    then obtain e where "structure_of_log pint pfloat log_content = Inl e"
      using structure_of_log_fail [OF assms(2,3), of pint pfloat] g assms(4) by auto
    with None assms(1) show ?thesis
      by (simp add: extract_optimized_structure_def bindE_def)
  next
    case (Some atoms)
    with structure_of_log_block [OF assms(2,3), of pint pfloat] g assms(4)
    have "structure_of_log pint pfloat log_content = Inr (if atoms = [] then None else Some atoms)"
      by simp
    with Some assms(1) show ?thesis
      by (simp add: extract_optimized_structure_def bindE_def)
  qed
qed

text \<open>
  C8. A log without the substring \<^verbatim>\<open>Normal termination\<close> gives \<^verbatim>\<open>None\<close>, whatever else
  it contains.
\<close>

theorem extract_optimized_structure_no_termination:
  assumes "read_log fs filename path = Inr log_content"
    and "\<not> contains ''Normal termination'' log_content"
  shows "extract_optimized_structure pint pfloat fs filename path = None"
  using assms by (simp add: extract_optimized_structure_def structure_of_log_def bindE_def)

text \<open>
  C10, as amended. Every exception raised in the \<^verbatim>\<open>try\<close> block gives \<^verbatim>\<open>None\<close>; in
  particular, with both markers in the log, a line of the geometry block with fewer than
  three fields, with a second field that is no integer or with one of its last three
  fields no float gives \<^verbatim>\<open>None\<close>, whatever the records before it.
\<close>

theorem extract_optimized_structure_exception:
  "(bindE (read_log fs filename path) (structure_of_log pint pfloat) = Inl e \<longrightarrow>
      extract_optimized_structure pint pfloat fs filename path = None)
   \<and> (read_log fs filename path = Inr log_content \<and>
      contains ''Normal termination'' log_content \<and>
      contains ''Optimization completed.'' log_content \<and>
      l \<in> set (takeWhile (\<lambda>l. \<not> contains ''-------'' l)
                 (drop (geometry_start (split_on newline log_content) + 5)
                    (split_on newline log_content))) \<and>
      (length (split_ws l) < 3 \<or> pint (split_ws l ! 1) = None \<or>
       (\<exists>i \<in> {1, 2, 3}. pfloat (split_ws l ! (length (split_ws l) - i)) = None)) \<longrightarrow>
      extract_optimized_structure pint pfloat fs filename path = None)"
proof (intro conjI impI)
  assume "bindE (read_log fs filename path) (structure_of_log pint pfloat) = Inl e"
  then show "extract_optimized_structure pint pfloat fs filename path = None"
    by (simp add: extract_optimized_structure_def)
next
  assume a: "read_log fs filename path = Inr log_content \<and>
      contains ''Normal termination'' log_content \<and>
      contains ''Optimization completed.'' log_content \<and>
      l \<in> set (takeWhile (\<lambda>l. \<not> contains ''-------'' l)
                 (drop (geometry_start (split_on newline log_content) + 5)
                    (split_on newline log_content))) \<and>
      (length (split_ws l) < 3 \<or> pint (split_ws l ! 1) = None \<or>
       (\<exists>i \<in> {1, 2, 3}. pfloat (split_ws l ! (length (split_ws l) - i)) = None))"
  then have "record_spec pint pfloat l = None"
    unfolding record_spec_eq_None by blast
  with a have "those (map (record_spec pint pfloat)
             (takeWhile (\<lambda>l. \<not> contains ''-------'' l)
                (drop (geometry_start (split_on newline log_content) + 5)
                   (split_on newline log_content)))) = None"
    unfolding those_eq_None by force
  with a obtain e' where "structure_of_log pint pfloat log_content = Inl e'"
    using structure_of_log_fail [of log_content pint pfloat] by blast
  with a show "extract_optimized_structure pint pfloat fs filename path = None"
    by (simp add: extract_optimized_structure_def bindE_def)
qed

text \<open>
  C1. On the sample log the atoms returned carry the atomic numbers 6 and 8 as read;
  the table would give \<^verbatim>\<open>C\<close> and \<^verbatim>\<open>O\<close>, and is not consulted.
\<close>

theorem extract_optimized_structure_numbers:
  "extract_optimized_structure dec_int dec_float (sample_fs sample_log) ''job.com'' ''/tmp'' =
     Some [(6, 0, 0, 0), (8, 0, 0, 3 / 2)] \<and>
   atomic_num_to_symbol 6 = Some ''C'' \<and> atomic_num_to_symbol 8 = Some ''O''"
  by code_simp

text \<open>
  C10 as stated names a record of fewer than four fields as a case of an exception. A
  record of three fields raises none: its second field is the atomic number and its
  three fields are the coordinates.
\<close>

theorem extract_optimized_structure_short_record_counterexample:
  "split_ws '' 1 6 0.0'' = [''1'', ''6'', ''0.0''] \<and>
   extract_optimized_structure dec_int dec_float (sample_fs sample_log_short) ''job.com'' ''/tmp'' =
     Some [(6, 1, 6, 0)]"
  by code_simp

theorem extract_optimized_structure_block_witness:
  "extract_optimized_structure dec_int dec_float (sample_fs sample_log) ''job.com'' ''/tmp'' =
     Some [(6, 0, 0, 0), (8, 0, 0, 3 / 2)]"
proof -
  have ll: "split_on newline sample_log =
      ['' Standard orientation:'', '' Optimization completed.'', '' Standard orientation:'',
       '' -------'', '' Center Atomic Atomic Coordinates'', '' Number Number Type X Y Z'',
       '' -------'', '' 1 6 0 0.0 0.0 0.0'', '' 2 8 0 0.0 0.0 1.5'', '' -------'',
       '' Normal termination of Gaussian 16.'', []]"
    by code_simp
  have h1: "read_log (sample_fs sample_log) ''job.com'' ''/tmp'' = Inr sample_log" by code_simp
  have h2: "contains ''Normal termination'' sample_log" by code_simp
  have h3: "contains ''Optimization completed.'' sample_log" by code_simp
  have h5: "(1::nat) < length (split_on newline sample_log)" by (simp add: ll)
  have h6: "re_search pat_completed (split_on newline sample_log ! 1) \<noteq> None"
    unfolding ll by code_simp
  have n0: "re_search pat_completed (split_on newline sample_log ! 0) = None"
    unfolding ll by code_simp
  have h7: "\<forall>j<1. re_search pat_completed (split_on newline sample_log ! j) = None"
    by (simp add: n0)
  have h8: "(1::nat) \<le> 2" by simp
  have h9: "(2::nat) < length (split_on newline sample_log)" by (simp add: ll)
  have h10: "contains ''Standard orientation'' (split_on newline sample_log ! 2)"
    unfolding ll by code_simp
  have n1: "\<not> contains ''Standard orientation'' (split_on newline sample_log ! 1)"
    unfolding ll by code_simp
  have j1: "\<And>j::nat. 1 \<le> j \<and> j < 2 \<Longrightarrow> j = 1" by arith
  have h11: "\<forall>j. 1 \<le> j \<and> j < 2 \<longrightarrow>
      \<not> contains ''Standard orientation'' (split_on newline sample_log ! j)"
  proof (intro allI impI)
    fix j :: nat
    assume "1 \<le> j \<and> j < 2"
    then have "j = 1" by (rule j1)
    with n1 show "\<not> contains ''Standard orientation'' (split_on newline sample_log ! j)"
      by simp
  qed
  have b: "those (map (record_spec dec_int dec_float)
              (takeWhile (\<lambda>l. \<not> contains ''-------'' l) (drop (2 + 5) (split_on newline sample_log)))) =
           Some [(6, 0, 0, 0), (8, 0, 0, 3 / 2)]"
    unfolding ll by code_simp
  show ?thesis
    using extract_optimized_structure_block
            [where pint = dec_int and pfloat = dec_float, OF h1 h2 h3 refl h5 h6 h7 h8 h9 h10 h11]
    unfolding b by simp
qed

theorem extract_optimized_structure_no_termination_witness:
  "extract_optimized_structure dec_int dec_float
     (sample_fs (sample_head @ '' 1 6 0 0.0 0.0 0.0\<newline> -------\<newline>'')) ''job.com'' ''/tmp'' = None"
proof -
  have h1: "read_log (sample_fs (sample_head @ '' 1 6 0 0.0 0.0 0.0\<newline> -------\<newline>'')) ''job.com'' ''/tmp'' =
            Inr (sample_head @ '' 1 6 0 0.0 0.0 0.0\<newline> -------\<newline>'')"
    by code_simp
  have h2: "\<not> contains ''Normal termination'' (sample_head @ '' 1 6 0 0.0 0.0 0.0\<newline> -------\<newline>'')"
    by code_simp
  show ?thesis
    using extract_optimized_structure_no_termination [where pint = dec_int and pfloat = dec_float, OF h1 h2] .
qed

theorem extract_optimized_structure_exception_witness:
  "bindE (read_log (sample_fs sample_log_bad) ''job.com'' ''/tmp'') (structure_of_log dec_int dec_float) =
     Inl ValueError \<and>
   record_spec dec_int dec_float '' 1 6 0 0.0 0.0 0.0'' = Some (6, 0, 0, 0) \<and>
   extract_optimized_structure dec_int dec_float (sample_fs sample_log_bad) ''job.com'' ''/tmp'' = None"
proof -
  have e: "bindE (read_log (sample_fs sample_log_bad) ''job.com'' ''/tmp'') (structure_of_log dec_int dec_float) =
     Inl ValueError"
    by code_simp
  have r: "record_spec dec_int dec_float '' 1 6 0 0.0 0.0 0.0'' = Some (6, 0, 0, 0)" by code_simp
  have h1: "read_log (sample_fs sample_log_bad) ''job.com'' ''/tmp'' = Inr sample_log_bad" by code_simp
  have h2: "contains ''Normal termination'' sample_log_bad" by code_simp
  have h3: "contains ''Optimization completed.'' sample_log_bad" by code_simp
  have blk: "takeWhile (\<lambda>l. \<not> contains ''-------'' l)
                 (drop (geometry_start (split_on newline sample_log_bad) + 5)
                    (split_on newline sample_log_bad)) =
             ['' 1 6 0 0.0 0.0 0.0'', '' 2 C 0 0.0 0.0 1.5'']"
    by code_simp
  have h4: "'' 2 C 0 0.0 0.0 1.5'' \<in> set (takeWhile (\<lambda>l. \<not> contains ''-------'' l)
                 (drop (geometry_start (split_on newline sample_log_bad) + 5)
                    (split_on newline sample_log_bad)))"
    by (simp add: blk)
  have h5: "dec_int (split_ws '' 2 C 0 0.0 0.0 1.5'' ! 1) = None" by code_simp
  have "extract_optimized_structure dec_int dec_float (sample_fs sample_log_bad) ''job.com'' ''/tmp'' = None"
    using extract_optimized_structure_exception
            [of "sample_fs sample_log_bad" "''job.com''" "''/tmp''" dec_int dec_float ValueError
                sample_log_bad "'' 2 C 0 0.0 0.0 1.5''"]
          e h1 h2 h3 h4 h5
    by blast
  with e r show ?thesis by simp
qed

subsection \<open>The electronic-structure summary\<close>

lemma nline_of_ceiling: "nline_of n = \<lceil>of_int n / (5::rat)\<rceil>"
proof -
  have "\<lceil>of_int n / (of_int 5 :: rat)\<rceil> = - (- n div 5)" by (rule ceiling_divide_eq_div)
  moreover have "- (- n div 5) = nline_of n" unfolding nline_of_def by presburger
  ultimately show ?thesis by simp
qed

lemma those_append:
  "those (xs @ ys) = (case those xs of None \<Rightarrow> None | Some a \<Rightarrow> map_option ((@) a) (those ys))"
proof (induction xs)
  case Nil
  show ?case by (cases "those ys") simp_all
next
  case (Cons x xs)
  then show ?case by (cases x; cases "those xs"; cases "those ys") simp_all
qed

lemma py_index_nat: "py_index xs (int i) = (if i < length xs then Inr (xs ! i) else Inl IndexError)"
  by (simp add: py_index_def)

lemma read_orbitals_in_range:
  "iline + 1 + a + m \<le> length lines \<Longrightarrow>
   read_orbitals pfloat lines iline acc [a ..< a + m] =
     (case those (concat (map (\<lambda>l. map pfloat (split_ws l)) (take m (drop (iline + 1 + a) lines)))) of
        Some vs \<Rightarrow> Inr (acc @ vs)
      | None \<Rightarrow> Inl ValueError)"
proof (induction m arbitrary: a acc)
  case 0
  show ?case by simp
next
  case (Suc m)
  let ?rest = "those (concat (map (\<lambda>l. map pfloat (split_ws l))
                 (take m (drop (iline + 1 + Suc a) lines))))"
  let ?line = "lines ! (a + iline + 1)"
  have lt: "a + iline + 1 < length lines" using Suc.prems by simp
  have u: "[a ..< a + Suc m] = a # [Suc a ..< Suc a + m]" by (simp add: upt_conv_Cons)
  have d: "take (Suc m) (drop (iline + 1 + a) lines) = ?line # take m (drop (iline + 1 + Suc a) lines)"
  proof -
    have "drop (iline + 1 + a) lines = ?line # drop (iline + 1 + Suc a) lines"
      using lt Cons_nth_drop_Suc [of "a + iline + 1" lines] by (simp add: add.commute add.left_commute)
    then show ?thesis by simp
  qed
  have ih: "\<And>acc. read_orbitals pfloat lines iline acc [Suc a ..< Suc a + m] =
     (case ?rest of Some vs \<Rightarrow> Inr (acc @ vs) | None \<Rightarrow> Inl ValueError)"
    using Suc.prems by (intro Suc.IH) simp
  have "read_orbitals pfloat lines iline acc [a ..< a + Suc m] =
        read_orbitals pfloat lines iline acc (a # [Suc a ..< Suc a + m])"
    by (simp only: u)
  also have "\<dots> = bindE (floats pfloat (split_ws ?line)) (\<lambda>vs.
        case ?rest of Some ws \<Rightarrow> Inr ((acc @ vs) @ ws) | None \<Rightarrow> Inl ValueError)"
    by (simp only: read_orbitals.simps py_index_nat lt if_True bindE_def sum.case ih)
  also have "\<dots> = (case those (concat (map (\<lambda>l. map pfloat (split_ws l))
                         (take (Suc m) (drop (iline + 1 + a) lines)))) of
        Some vs \<Rightarrow> Inr (acc @ vs)
      | None \<Rightarrow> Inl ValueError)"
    unfolding d
    by (cases "those (map pfloat (split_ws ?line))"; cases ?rest)
       (simp_all add: floats_def bindE_def those_append)
  finally show ?case .
qed

lemma read_orbitals_out_of_range:
  "\<not> iline + 1 + a + m \<le> length lines \<Longrightarrow> iline + 1 + a \<le> length lines \<Longrightarrow>
   \<exists>e. read_orbitals pfloat lines iline acc [a ..< a + m] = Inl e"
proof (induction m arbitrary: a acc)
  case 0
  then show ?case by simp
next
  case (Suc m)
  have u: "[a ..< a + Suc m] = a # [Suc a ..< Suc a + m]" by (simp add: upt_conv_Cons)
  show ?case
  proof (cases "a + iline + 1 < length lines")
    case False
    have "read_orbitals pfloat lines iline acc (a # [Suc a ..< Suc a + m]) = Inl IndexError"
      using False by (simp only: read_orbitals.simps py_index_nat if_False bindE_def sum.case)
    then show ?thesis by (simp only: u) blast
  next
    case True
    have ih: "\<And>acc. \<exists>e. read_orbitals pfloat lines iline acc [Suc a ..< Suc a + m] = Inl e"
      using Suc.prems True by (intro Suc.IH) simp_all
    have "\<exists>e. read_orbitals pfloat lines iline acc (a # [Suc a ..< Suc a + m]) = Inl e"
    proof (cases "floats pfloat (split_ws (lines ! (a + iline + 1)))")
      case (Inl e)
      then show ?thesis
        using True by (simp only: read_orbitals.simps py_index_nat if_True bindE_def sum.case) blast
    next
      case (Inr vs)
      then show ?thesis
        using True ih [of "acc @ vs"]
        by (simp only: read_orbitals.simps py_index_nat if_True bindE_def sum.case)
    qed
    then show ?thesis by (simp only: u)
  qed
qed

lemma those_map_Some: "those (map Some xs) = Some xs"
  by (induction xs) simp_all

lemma fchk_orbitals_read:
  assumes "k < length lines"
    and "last_int pint (lines ! k) = Inr n"
  shows "fchk_orbitals pint pfloat lines k = Inr orb \<longleftrightarrow>
            k + 1 + nat \<lceil>of_int n / (5::rat)\<rceil> \<le> length lines \<and>
            concat (map (\<lambda>l. map pfloat (split_ws l))
                      (take (nat \<lceil>of_int n / (5::rat)\<rceil>) (drop (k + 1) lines))) = map Some orb"
proof -
  let ?m = "nat (nline_of n)"
  have f: "fchk_orbitals pint pfloat lines k = read_orbitals pfloat lines k [] [0 ..< 0 + ?m]"
    using assms by (simp add: fchk_orbitals_def py_index_nat bindE_def Let_def)
  have "fchk_orbitals pint pfloat lines k = Inr orb \<longleftrightarrow>
          k + 1 + ?m \<le> length lines \<and>
          concat (map (\<lambda>l. map pfloat (split_ws l)) (take ?m (drop (k + 1) lines))) = map Some orb"
  proof (cases "k + 1 + 0 + ?m \<le> length lines")
    case True
    from read_orbitals_in_range [OF True, of pfloat "[]"] True show ?thesis
      unfolding f by (auto simp: those_eq_Some those_map_Some split: option.splits)
  next
    case False
    moreover have "k + 1 + 0 \<le> length lines" using assms(1) by simp
    ultimately obtain e where "read_orbitals pfloat lines k [] [0 ..< 0 + ?m] = Inl e"
      using read_orbitals_out_of_range [of k 0 ?m lines pfloat "[]"] by blast
    with False show ?thesis unfolding f by simp
  qed
  then show ?thesis by (simp add: nline_of_ceiling)
qed

lemma extract_fchk_data_stages:
  "extract_fchk_data pint pfloat content =
     bindE (fchk_scan pint pfloat 0 [(''Energy'', PNone), (''HOMO'', PNone), (''LUMO'', PNone)]
              (readlines content))
       (\<lambda>(data, iline). bindE (fchk_orbitals pint pfloat (readlines content) iline) (fchk_finish data))"
  by (simp add: extract_fchk_data_def fchk_finish_def [abs_def] Let_def)

lemma fchk_scan_label:
  assumes "j < length ls"
    and "contains ''Alpha Orbital Energies'' (ls ! j)"
    and "\<not> contains ''Number of electrons'' (ls ! j)"
    and "\<forall>i<j. contains ''Alpha Orbital Energies'' (ls ! i) \<longrightarrow>
               contains ''Number of electrons'' (ls ! i)"
    and "\<forall>i\<le>j. (contains ''Total Energy'' (ls ! i) \<longrightarrow> (\<exists>v. last_float pfloat (ls ! i) = Inr v)) \<and>
               (contains ''Number of electrons'' (ls ! i) \<longrightarrow> (\<exists>m. last_int pint (ls ! i) = Inr m))"
  shows "\<exists>data'. fchk_scan pint pfloat i0 data ls = Inr (data', i0 + j)"
  using assms
proof (induction ls arbitrary: i0 data j)
  case Nil
  then show ?case by simp
next
  case (Cons line ls)
  from Cons.prems(5) have c0:
    "contains ''Total Energy'' line \<longrightarrow> (\<exists>v. last_float pfloat line = Inr v)"
    "contains ''Number of electrons'' line \<longrightarrow> (\<exists>m. last_int pint line = Inr m)"
    by (auto dest: spec [of _ 0])
  obtain data1 where d1:
    "(if contains ''Total Energy'' line
      then bindE (last_float pfloat line) (\<lambda>v. Inr (AList.update ''Energy'' (PFloat v) data))
      else Inr data) = Inr data1"
    using c0(1) by (cases "contains ''Total Energy'' line") (auto simp: bindE_def)
  show ?case
  proof (cases j)
    case 0
    with Cons.prems(2,3) have "contains ''Alpha Orbital Energies'' line"
      "\<not> contains ''Number of electrons'' line" by simp_all
    then have "fchk_scan pint pfloat i0 data (line # ls) = Inr (data1, i0)"
      by (simp only: fchk_scan.simps d1) (simp add: bindE_def)
    with 0 show ?thesis by simp
  next
    case (Suc j')
    have p1: "j' < length ls" using Cons.prems(1) Suc by simp
    have p2: "contains ''Alpha Orbital Energies'' (ls ! j')" using Cons.prems(2) Suc by simp
    have p3: "\<not> contains ''Number of electrons'' (ls ! j')" using Cons.prems(3) Suc by simp
    have p4: "\<forall>i<j'. contains ''Alpha Orbital Energies'' (ls ! i) \<longrightarrow>
               contains ''Number of electrons'' (ls ! i)"
    proof (intro allI impI)
      fix i assume "i < j'" and a: "contains ''Alpha Orbital Energies'' (ls ! i)"
      then have "Suc i < j" using Suc by simp
      with Cons.prems(4) a show "contains ''Number of electrons'' (ls ! i)"
        by (auto dest!: spec [of _ "Suc i"])
    qed
    have p5: "\<forall>i\<le>j'. (contains ''Total Energy'' (ls ! i) \<longrightarrow> (\<exists>v. last_float pfloat (ls ! i) = Inr v)) \<and>
               (contains ''Number of electrons'' (ls ! i) \<longrightarrow> (\<exists>m. last_int pint (ls ! i) = Inr m))"
    proof (intro allI impI)
      fix i assume "i \<le> j'"
      then have "Suc i \<le> j" using Suc by simp
      with Cons.prems(5) show "(contains ''Total Energy'' (ls ! i) \<longrightarrow> (\<exists>v. last_float pfloat (ls ! i) = Inr v)) \<and>
               (contains ''Number of electrons'' (ls ! i) \<longrightarrow> (\<exists>m. last_int pint (ls ! i) = Inr m))"
        by (auto dest!: spec [of _ "Suc i"])
    qed
    note ih = Cons.IH [OF p1 p2 p3 p4 p5]
    from Cons.prems(4) Suc have nl:
      "contains ''Alpha Orbital Energies'' line \<longrightarrow> contains ''Number of electrons'' line"
      by (auto dest!: spec [of _ 0])
    show ?thesis
    proof (cases "contains ''Number of electrons'' line")
      case True
      with c0(2) obtain m where m: "last_int pint line = Inr m" by blast
      from ih [of "Suc i0" "AList.update ''Ne'' (PInt m) data1"] obtain data' where
        "fchk_scan pint pfloat (Suc i0) (AList.update ''Ne'' (PInt m) data1) ls =
           Inr (data', Suc i0 + j')" by blast
      then have "fchk_scan pint pfloat i0 data (line # ls) = Inr (data', Suc i0 + j')"
        using True m by (simp only: fchk_scan.simps d1) (simp add: bindE_def)
      with Suc show ?thesis by simp
    next
      case False
      with nl have na: "\<not> contains ''Alpha Orbital Energies'' line" by blast
      from ih [of "Suc i0" data1] obtain data' where
        "fchk_scan pint pfloat (Suc i0) data1 ls = Inr (data', Suc i0 + j')" by blast
      then have "fchk_scan pint pfloat i0 data (line # ls) = Inr (data', Suc i0 + j')"
        using False na by (simp only: fchk_scan.simps d1) (simp add: bindE_def)
      with Suc show ?thesis by simp
    qed
  qed
qed

text \<open>
  C6. Let \<open>k\<close> be the label line: the first line that contains \<^verbatim>\<open>Alpha Orbital Energies\<close>
  and not \<^verbatim>\<open>Number of electrons\<close>, the conversions of the scan succeeding up to it; let
  \<open>n\<close> be the integer of its last field and \<open>m = \<lceil>n / 5\<rceil>\<close>. Then the line count computed is
  \<open>\<lceil>n / 5\<rceil>\<close> and the scan of \<^verbatim>\<open>extract_fchk_data\<close> stops at \<open>k\<close>. When \<open>m\<close> lines follow the
  label line and all their fields convert, \<^verbatim>\<open>orb_energies\<close> is the list of the floats of
  these fields, line after line, and the function goes on with this list; when fewer
  than \<open>m\<close> lines follow or a field of them does not convert, the function raises.
\<close>

theorem extract_fchk_data_orbitals:
  assumes "lines = readlines content"
    and "k < length lines"
    and "contains ''Alpha Orbital Energies'' (lines ! k)"
    and "\<not> contains ''Number of electrons'' (lines ! k)"
    and "\<forall>i<k. contains ''Alpha Orbital Energies'' (lines ! i) \<longrightarrow>
               contains ''Number of electrons'' (lines ! i)"
    and "\<forall>i\<le>k. (contains ''Total Energy'' (lines ! i) \<longrightarrow>
                  (\<exists>v. last_float pfloat (lines ! i) = Inr v)) \<and>
               (contains ''Number of electrons'' (lines ! i) \<longrightarrow>
                  (\<exists>c. last_int pint (lines ! i) = Inr c))"
    and "last_int pint (lines ! k) = Inr n"
    and "m = nat \<lceil>of_int n / (5::rat)\<rceil>"
    and "toks = concat (map (\<lambda>l. map pfloat (split_ws l)) (take m (drop (k + 1) lines)))"
  shows "nline_of n = \<lceil>of_int n / (5::rat)\<rceil> \<and>
         (\<exists>data.
            fchk_scan pint pfloat 0 [(''Energy'', PNone), (''HOMO'', PNone), (''LUMO'', PNone)] lines =
              Inr (data, k) \<and>
            (k + 1 + m \<le> length lines \<and> toks = map Some orb \<longrightarrow>
               fchk_orbitals pint pfloat lines k = Inr orb \<and>
               extract_fchk_data pint pfloat content = fchk_finish data orb) \<and>
            (\<not> k + 1 + m \<le> length lines \<or> None \<in> set toks \<longrightarrow>
               (\<exists>e. fchk_orbitals pint pfloat lines k = Inl e \<and>
                    extract_fchk_data pint pfloat content = Inl e)))"
proof -
  from fchk_scan_label [OF assms(2-6), of 0 "[(''Energy'', PNone), (''HOMO'', PNone), (''LUMO'', PNone)]"]
  obtain data where
    sc: "fchk_scan pint pfloat 0 [(''Energy'', PNone), (''HOMO'', PNone), (''LUMO'', PNone)] lines =
           Inr (data, k)"
    by auto
  have st: "extract_fchk_data pint pfloat content =
              bindE (fchk_orbitals pint pfloat lines k) (fchk_finish data)"
    using sc unfolding extract_fchk_data_stages assms(1) by (simp add: bindE_def)
  have rd: "\<And>orb. fchk_orbitals pint pfloat lines k = Inr orb \<longleftrightarrow>
              k + 1 + m \<le> length lines \<and> toks = map Some orb"
    unfolding assms(8,9) by (rule fchk_orbitals_read [OF assms(2,7)])
  have ok: "k + 1 + m \<le> length lines \<and> toks = map Some orb \<longrightarrow>
               fchk_orbitals pint pfloat lines k = Inr orb \<and>
               extract_fchk_data pint pfloat content = fchk_finish data orb"
  proof
    assume "k + 1 + m \<le> length lines \<and> toks = map Some orb"
    then have "fchk_orbitals pint pfloat lines k = Inr orb" by (simp add: rd)
    then show "fchk_orbitals pint pfloat lines k = Inr orb \<and>
               extract_fchk_data pint pfloat content = fchk_finish data orb"
      by (simp add: st bindE_def)
  qed
  have bad: "\<not> k + 1 + m \<le> length lines \<or> None \<in> set toks \<longrightarrow>
               (\<exists>e. fchk_orbitals pint pfloat lines k = Inl e \<and>
                    extract_fchk_data pint pfloat content = Inl e)"
  proof
    assume a: "\<not> k + 1 + m \<le> length lines \<or> None \<in> set toks"
    have "\<And>orb'. fchk_orbitals pint pfloat lines k \<noteq> Inr orb'"
    proof
      fix orb'
      assume "fchk_orbitals pint pfloat lines k = Inr orb'"
      then have "k + 1 + m \<le> length lines" "toks = map Some orb'" by (simp_all add: rd)
      with a show False by auto
    qed
    then obtain e where "fchk_orbitals pint pfloat lines k = Inl e"
      by (cases "fchk_orbitals pint pfloat lines k") auto
    then show "\<exists>e. fchk_orbitals pint pfloat lines k = Inl e \<and>
                    extract_fchk_data pint pfloat content = Inl e"
      by (simp add: st bindE_def)
  qed
  from sc ok bad show ?thesis by (auto simp: nline_of_ceiling)
qed

text \<open>
  C2. When the scan has found the electron count \<open>ne\<close> (at least 2) and the orbital
  energies read have at least \<open>ne div 2 + 1\<close> entries, the function returns, and in the
  dictionary returned \<^verbatim>\<open>HOMO\<close> is the entry \<open>ne div 2 - 1\<close> and \<^verbatim>\<open>LUMO\<close> the entry
  \<open>ne div 2\<close> of the orbital energies, counted from zero.
\<close>

theorem extract_fchk_data_homo_lumo:
  assumes "fchk_scan pint pfloat 0 [(''Energy'', PNone), (''HOMO'', PNone), (''LUMO'', PNone)]
             (readlines content) = Inr (data, k)"
    and "map_of data ''Ne'' = Some (PInt ne)"
    and "fchk_orbitals pint pfloat (readlines content) k = Inr orbitalEnergies"
    and "2 \<le> ne"
    and "ne div 2 + 1 \<le> int (length orbitalEnergies)"
  shows "bindE (extract_fchk_data pint pfloat content) (\<lambda>d. dict_get d ''HOMO'') =
           Inr (PFloat (orbitalEnergies ! nat (ne div 2 - 1))) \<and>
         bindE (extract_fchk_data pint pfloat content) (\<lambda>d. dict_get d ''LUMO'') =
           Inr (PFloat (orbitalEnergies ! nat (ne div 2)))"
proof -
  have ne: "\<And>d v. dict_int (AList.update ''HOMO'' v data) ''Ne'' = Inr ne" "dict_int data ''Ne'' = Inr ne"
    using assms(2) by (simp_all add: dict_int_def dict_get_def bindE_def update_conv')
  have h: "py_index orbitalEnergies (ne div 2 - 1) = Inr (orbitalEnergies ! nat (ne div 2 - 1))"
    using assms(4,5) by (simp add: py_index_def)
  have l: "py_index orbitalEnergies (ne div 2) = Inr (orbitalEnergies ! nat (ne div 2))"
    using assms(4,5) by (simp add: py_index_def)
  have "extract_fchk_data pint pfloat content =
          Inr (AList.update ''LUMO'' (PFloat (orbitalEnergies ! nat (ne div 2)))
                (AList.update ''HOMO'' (PFloat (orbitalEnergies ! nat (ne div 2 - 1))) data))"
    using assms(1,3) by (simp add: extract_fchk_data_def Let_def bindE_def ne h l)
  then show ?thesis by (simp add: bindE_def dict_get_def update_conv')
qed

theorem extract_fchk_data_orbitals_witness:
  "nline_of 7 = 2 \<and>
   fchk_scan dec_int dec_float 0 [(''Energy'', PNone), (''HOMO'', PNone), (''LUMO'', PNone)]
     (readlines sample_fchk) =
     Inr ([(''Energy'', PFloat (- (153 / 2))), (''HOMO'', PNone), (''LUMO'', PNone),
           (''Ne'', PInt 10)], 2) \<and>
   fchk_orbitals dec_int dec_float (readlines sample_fchk) 2 =
     Inr [- (41 / 2), - (5 / 4), - (3 / 4), - (1 / 2), - (1 / 4), 1 / 8, 1 / 2] \<and>
   extract_fchk_data dec_int dec_float sample_fchk =
     fchk_finish
       [(''Energy'', PFloat (- (153 / 2))), (''HOMO'', PNone), (''LUMO'', PNone), (''Ne'', PInt 10)]
       [- (41 / 2), - (5 / 4), - (3 / 4), - (1 / 2), - (1 / 4), 1 / 8, 1 / 2] \<and>
   extract_fchk_data dec_int dec_float sample_fchk_short = Inl IndexError"
proof -
  let ?L = "readlines sample_fchk"
  let ?S = "readlines sample_fchk_short"
  let ?orb = "[- (41 / 2), - (5 / 4), - (3 / 4), - (1 / 2), - (1 / 4), 1 / 8, 1 / 2] :: rat list"
  have i3: "\<And>i::nat. i \<le> 2 \<Longrightarrow> i = 0 \<or> i = 1 \<or> i = 2" by arith
  have i2: "\<And>i::nat. i < 2 \<Longrightarrow> i = 0 \<or> i = 1" by arith
  have n: "nline_of 7 = 2" by code_simp
  have sc: "fchk_scan dec_int dec_float 0 [(''Energy'', PNone), (''HOMO'', PNone), (''LUMO'', PNone)] ?L =
     Inr ([(''Energy'', PFloat (- (153 / 2))), (''HOMO'', PNone), (''LUMO'', PNone),
           (''Ne'', PInt 10)], 2)"
    by code_simp
  have k: "2 < length ?L" by code_simp
  have l2: "contains ''Alpha Orbital Energies'' (?L ! 2)" "\<not> contains ''Number of electrons'' (?L ! 2)"
    "\<not> contains ''Total Energy'' (?L ! 2)" "last_int dec_int (?L ! 2) = Inr 7"
    by code_simp+
  have l0: "\<not> contains ''Alpha Orbital Energies'' (?L ! 0)" "\<not> contains ''Total Energy'' (?L ! 0)"
    "last_int dec_int (?L ! 0) = Inr 10"
    by code_simp+
  have l1: "\<not> contains ''Alpha Orbital Energies'' (?L ! 1)" "\<not> contains ''Number of electrons'' (?L ! 1)"
    "last_float dec_float (?L ! 1) = Inr (- (153 / 2))"
    by code_simp+
  have h5: "\<forall>i<2. contains ''Alpha Orbital Energies'' (?L ! i) \<longrightarrow>
               contains ''Number of electrons'' (?L ! i)"
    using l0(1) l1(1) by (auto dest!: i2)
  have h6: "\<forall>i\<le>2. (contains ''Total Energy'' (?L ! i) \<longrightarrow>
                  (\<exists>v. last_float dec_float (?L ! i) = Inr v)) \<and>
               (contains ''Number of electrons'' (?L ! i) \<longrightarrow>
                  (\<exists>c. last_int dec_int (?L ! i) = Inr c))"
    using l0(2,3) l1(2,3) l2(2,3) by (auto dest!: i3)
  have c: "\<lceil>of_int 7 / (5::rat)\<rceil> = 2" using nline_of_ceiling [of 7] n by simp
  have m: "(2::nat) = nat \<lceil>of_int 7 / (5::rat)\<rceil>" unfolding c by simp
  have t: "concat (map (\<lambda>l. map dec_float (split_ws l)) (take 2 (drop (2 + 1) ?L))) = map Some ?orb"
    by code_simp
  have len: "2 + 1 + 2 \<le> length ?L" by code_simp
  from extract_fchk_data_orbitals [OF refl k l2(1,2) h5 h6 l2(4) m refl, of ?orb]
  obtain data where
    d: "fchk_scan dec_int dec_float 0 [(''Energy'', PNone), (''HOMO'', PNone), (''LUMO'', PNone)] ?L =
          Inr (data, 2)"
    and o: "2 + 1 + 2 \<le> length ?L \<and>
            concat (map (\<lambda>l. map dec_float (split_ws l)) (take 2 (drop (2 + 1) ?L))) = map Some ?orb \<longrightarrow>
            fchk_orbitals dec_int dec_float ?L 2 = Inr ?orb \<and>
            extract_fchk_data dec_int dec_float sample_fchk = fchk_finish data ?orb"
    by blast
  from d sc have dd: "data = [(''Energy'', PFloat (- (153 / 2))), (''HOMO'', PNone), (''LUMO'', PNone),
           (''Ne'', PInt 10)]" by simp
  from o t len have r: "fchk_orbitals dec_int dec_float ?L 2 = Inr ?orb"
    "extract_fchk_data dec_int dec_float sample_fchk = fchk_finish data ?orb" by blast+
  have ks: "2 < length ?S" by code_simp
  have s2: "contains ''Alpha Orbital Energies'' (?S ! 2)" "\<not> contains ''Number of electrons'' (?S ! 2)"
    "\<not> contains ''Total Energy'' (?S ! 2)" "last_int dec_int (?S ! 2) = Inr 7"
    by code_simp+
  have s0: "\<not> contains ''Alpha Orbital Energies'' (?S ! 0)" "\<not> contains ''Total Energy'' (?S ! 0)"
    "last_int dec_int (?S ! 0) = Inr 10"
    by code_simp+
  have s1: "\<not> contains ''Alpha Orbital Energies'' (?S ! 1)" "\<not> contains ''Number of electrons'' (?S ! 1)"
    "last_float dec_float (?S ! 1) = Inr (- (153 / 2))"
    by code_simp+
  have g5: "\<forall>i<2. contains ''Alpha Orbital Energies'' (?S ! i) \<longrightarrow>
               contains ''Number of electrons'' (?S ! i)"
    using s0(1) s1(1) by (auto dest!: i2)
  have g6: "\<forall>i\<le>2. (contains ''Total Energy'' (?S ! i) \<longrightarrow>
                  (\<exists>v. last_float dec_float (?S ! i) = Inr v)) \<and>
               (contains ''Number of electrons'' (?S ! i) \<longrightarrow>
                  (\<exists>c. last_int dec_int (?S ! i) = Inr c))"
    using s0(2,3) s1(2,3) s2(2,3) by (auto dest!: i3)
  have short: "\<not> 2 + 1 + 2 \<le> length ?S" by code_simp
  have oe: "fchk_orbitals dec_int dec_float ?S 2 = Inl IndexError" by code_simp
  from extract_fchk_data_orbitals [OF refl ks s2(1,2) g5 g6 s2(4) m refl, of ?orb] short
  obtain e where "fchk_orbitals dec_int dec_float ?S 2 = Inl e"
    "extract_fchk_data dec_int dec_float sample_fchk_short = Inl e"
    by blast
  with oe have x: "extract_fchk_data dec_int dec_float sample_fchk_short = Inl IndexError" by simp
  from n sc r x show ?thesis unfolding dd by (intro conjI)
qed

theorem extract_fchk_data_homo_lumo_witness:
  "bindE (extract_fchk_data dec_int dec_float sample_fchk) (\<lambda>d. dict_get d ''HOMO'') =
     Inr (PFloat (- (1 / 4))) \<and>
   bindE (extract_fchk_data dec_int dec_float sample_fchk) (\<lambda>d. dict_get d ''LUMO'') =
     Inr (PFloat (1 / 8))"
proof -
  have h1: "fchk_scan dec_int dec_float 0 [(''Energy'', PNone), (''HOMO'', PNone), (''LUMO'', PNone)]
             (readlines sample_fchk) =
            Inr ([(''Energy'', PFloat (- (153 / 2))), (''HOMO'', PNone), (''LUMO'', PNone),
                  (''Ne'', PInt 10)], 2)"
    by code_simp
  have h2: "map_of [(''Energy'', PFloat (- (153 / 2) :: rat)), (''HOMO'', PNone), (''LUMO'', PNone),
                  (''Ne'', PInt 10)] ''Ne'' = Some (PInt 10)"
    by simp
  have h3: "fchk_orbitals dec_int dec_float (readlines sample_fchk) 2 =
     Inr [- (41 / 2), - (5 / 4), - (3 / 4), - (1 / 2), - (1 / 4), 1 / 8, 1 / 2]"
    by code_simp
  have h4: "(2::int) \<le> 10" by simp
  have h5: "(10::int) div 2 + 1 \<le>
      int (length [- (41 / 2), - (5 / 4), - (3 / 4), - (1 / 2), - (1 / 4), 1 / 8, 1 / 2 :: rat])"
    by simp
  have i4: "nat (10 div 2 - 1) = 4" by simp
  have i5: "nat (10 div 2) = 5" by simp
  show ?thesis
    using extract_fchk_data_homo_lumo [OF h1 h2 h3 h4 h5] unfolding i4 i5 by simp
qed

subsection \<open>The surface-analysis report\<close>












lemma touches_keys: "touches K r r' \<Longrightarrow> map fst r' = map fst r"
  by (simp add: touches_def)






















































end
